theory Spec2Isabelle
  imports Main
begin

section \<open>The net/http values the package works on\<close>

text \<open>
  Go strings and byte slices are byte sequences, so both are \<open>string\<close> here and
  \<open>length\<close> is Go's \<open>len\<close>. An \<open>error\<close> is modelled by its description
  (\<open>err.Error()\<close>), and a value the source compares with \<open>nil\<close> is an option.
  Values the source never compares with \<open>nil\<close> (the handler, the renderable result it
  returns, the response writer) are total values.
\<close>

type_synonym bytes = string

text \<open>\<open>http.Header\<close> and \<open>url.Values\<close> are both \<open>map[string][]string\<close>.\<close>

type_synonym Header = "string \<rightharpoonup> string list"
type_synonym Values = "string \<rightharpoonup> string list"

text \<open>
  Indexing a Go map at a missing key yields the nil slice, whose length is 0.
\<close>

definition index_map :: "(string \<rightharpoonup> string list) \<Rightarrow> string \<Rightarrow> string list" where
  "index_map m k = (case m k of None \<Rightarrow> [] | Some vs \<Rightarrow> vs)"

text \<open>
  \<open>Header.Add\<close> and \<open>Header.Values\<close> of the standard library canonicalise the key with
  \<open>textproto.CanonicalMIMEHeaderKey\<close> before they touch the map. That function is not
  part of this repository: it is the parameter \<open>canon\<close> of everything that uses it.
\<close>

definition Header_Add :: "(string \<Rightarrow> string) \<Rightarrow> Header \<Rightarrow> string \<Rightarrow> string \<Rightarrow> Header" where
  "Header_Add canon h k v = h(canon k \<mapsto> index_map h (canon k) @ [v])"

definition Header_Values :: "(string \<Rightarrow> string) \<Rightarrow> Header \<Rightarrow> string \<Rightarrow> string list" where
  "Header_Values canon h k = index_map h (canon k)"

text \<open>
  \<open>http.ResponseWriter\<close> is an interface (\<open>Header()\<close>, \<open>WriteHeader\<close>, \<open>Write\<close>).
  The model keeps the header map it hands out, the calls made on it in order, and the
  error its \<open>Write\<close> answers with, which may depend on the calls so far and on the data.
\<close>

datatype call = WriteHeader int | Write bytes

record ResponseWriter =
  rw_Header :: Header
  rw_calls :: "call list"
  rw_err :: "call list \<Rightarrow> bytes \<Rightarrow> string option"

definition rw_WriteHeader :: "ResponseWriter \<Rightarrow> int \<Rightarrow> ResponseWriter" where
  "rw_WriteHeader w code = w\<lparr>rw_calls := rw_calls w @ [WriteHeader code]\<rparr>"

definition rw_Write :: "ResponseWriter \<Rightarrow> bytes \<Rightarrow> string option \<times> ResponseWriter" where
  "rw_Write w b = (rw_err w (rw_calls w) b, w\<lparr>rw_calls := rw_calls w @ [Write b]\<rparr>)"

definition StatusOK :: int where
  "StatusOK = 200"

definition StatusInternalServerError :: int where
  "StatusInternalServerError = 500"

subsection \<open>strconv.Itoa\<close>

definition digit_char :: "nat \<Rightarrow> char" where
  "digit_char d = char_of (48 + d)"

function nat_dec :: "nat \<Rightarrow> string" where
  "nat_dec n = (if n < 10 then [digit_char n] else nat_dec (n div 10) @ [digit_char (n mod 10)])"
  by pat_completeness auto
termination
  by (relation "measure (\<lambda>n. n)") auto

declare nat_dec.simps [simp del]

definition Itoa :: "int \<Rightarrow> string" where
  "Itoa i = (if i < 0 then CHR ''-'' # nat_dec (nat (- i)) else nat_dec (nat i))"

text \<open>The number a string of decimal digits denotes, to read \<open>Itoa\<close> back.\<close>

definition dec_value :: "string \<Rightarrow> nat" where
  "dec_value s = foldl (\<lambda>a c. 10 * a + (of_char c - 48)) 0 s"

section \<open>Package render (render/render.go)\<close>

definition HeaderContentTyp :: string where
  "HeaderContentTyp = ''Content-Type''"

definition HeaderContentLen :: string where
  "HeaderContentLen = ''Content-Length''"

definition HeaderLocation :: string where
  "HeaderLocation = ''Location''"

record NopRender =
  Status :: int
  Headers :: Header

record JSONRender = NopRender +
  Data :: bytes

record TextRender = NopRender +
  Text :: bytes

record RedirectRender = NopRender +
  RText :: bytes

text \<open>
  \<open>json.Marshal\<close> is the parameter \<open>marshal\<close>; it returns the bytes and an error, and
  \<open>JSON\<close> drops the error (\<open>bf, _ := json.Marshal(data)\<close>).
\<close>

definition render_JSON :: "('d \<Rightarrow> bytes \<times> string option) \<Rightarrow> 'd \<Rightarrow> JSONRender" where
  "render_JSON marshal data =
     (let bf = fst (marshal data) in
      \<lparr>Status = StatusOK,
       Headers = [HeaderContentTyp \<mapsto> [''application/json; charset=utf-8''],
                  HeaderContentLen \<mapsto> [Itoa (int (length bf))]],
       Data = bf\<rparr>)"

definition render_Text :: "string \<Rightarrow> TextRender" where
  "render_Text text =
     (let bf = text in
      \<lparr>Status = StatusOK,
       Headers = [HeaderContentTyp \<mapsto> [''text/plain; charset=utf-8''],
                  HeaderContentLen \<mapsto> [Itoa (int (length bf))]],
       Text = bf\<rparr>)"

definition render_Redirect :: "int \<Rightarrow> string \<Rightarrow> string list \<Rightarrow> RedirectRender" where
  "render_Redirect status location text =
     (let bf = (if length text > 0 then concat text else ''redirect'') in
      \<lparr>Status = status,
       Headers = [HeaderContentTyp \<mapsto> [''text/plain; charset=utf-8''],
                  HeaderContentLen \<mapsto> [Itoa (int (length bf))],
                  HeaderLocation \<mapsto> [location]],
       RText = bf\<rparr>)"

text \<open>
  \<open>copyHeaders\<close> ranges over the source map. Go leaves the order of that iteration
  open, so the order is the argument \<open>ks\<close>: the keys of \<open>src\<close>, each once
  (\<open>range_order\<close>).
\<close>

definition range_order :: "string list \<Rightarrow> Header \<Rightarrow> bool" where
  "range_order ks m = (distinct ks \<and> set ks = dom m)"

definition copyHeaders :: "(string \<Rightarrow> string) \<Rightarrow> string list \<Rightarrow> Header \<Rightarrow> Header \<Rightarrow> Header" where
  "copyHeaders canon ks dst src =
     fold (\<lambda>k d. fold (\<lambda>v d'. Header_Add canon d' k v) (index_map src k) d) ks dst"

definition render_NopRender_WriteTo ::
  "(string \<Rightarrow> string) \<Rightarrow> string list \<Rightarrow> 'a NopRender_scheme \<Rightarrow> ResponseWriter
     \<Rightarrow> string option \<times> ResponseWriter" where
  "render_NopRender_WriteTo canon ks n w =
     (let w1 = w\<lparr>rw_Header := copyHeaders canon ks (rw_Header w) (Headers n)\<rparr>;
          w2 = (if Status n > 0 then rw_WriteHeader w1 (Status n)
                else rw_WriteHeader w1 StatusOK)
      in (None, w2))"

definition render_JSONRender_WriteTo ::
  "(string \<Rightarrow> string) \<Rightarrow> string list \<Rightarrow> JSONRender \<Rightarrow> ResponseWriter
     \<Rightarrow> string option \<times> ResponseWriter" where
  "render_JSONRender_WriteTo canon ks j w =
     (let (_, w1) = render_NopRender_WriteTo canon ks j w;
          (errW, w2) = rw_Write w1 (Data j)
      in (errW, w2))"

definition render_TextRender_WriteTo ::
  "(string \<Rightarrow> string) \<Rightarrow> string list \<Rightarrow> TextRender \<Rightarrow> ResponseWriter
     \<Rightarrow> string option \<times> ResponseWriter" where
  "render_TextRender_WriteTo canon ks t w =
     (let (_, w1) = render_NopRender_WriteTo canon ks t w;
          (errW, w2) = rw_Write w1 (Text t)
      in (errW, w2))"

definition render_RedirectRender_WriteTo ::
  "(string \<Rightarrow> string) \<Rightarrow> string list \<Rightarrow> RedirectRender \<Rightarrow> ResponseWriter
     \<Rightarrow> string option \<times> ResponseWriter" where
  "render_RedirectRender_WriteTo canon ks r w =
     (let (_, w1) = render_NopRender_WriteTo canon ks r w;
          (errW, w2) = rw_Write w1 (RText r)
      in (errW, w2))"

section \<open>Package clover: render.go\<close>

text \<open>
  The package declares \<open>NopRender\<close>, \<open>JSONRender\<close> and \<open>TextRender\<close> again with the
  same fields, so the records above stand for both declarations; its constructors and
  methods are separate functions and are modelled separately.
\<close>

definition clover_JSON :: "('d \<Rightarrow> bytes \<times> string option) \<Rightarrow> 'd \<Rightarrow> JSONRender" where
  "clover_JSON marshal data =
     (let bf = fst (marshal data) in
      \<lparr>Status = 0,
       Headers = [HeaderContentTyp \<mapsto> [''application/json; charset=utf-8''],
                  HeaderContentLen \<mapsto> [Itoa (int (length bf))]],
       Data = bf\<rparr>)"

definition clover_Text :: "string \<Rightarrow> TextRender" where
  "clover_Text text =
     (let bf = text in
      \<lparr>Status = 0,
       Headers = [HeaderContentTyp \<mapsto> [''text/plain; charset=utf-8''],
                  HeaderContentLen \<mapsto> [Itoa (int (length bf))]],
       Text = bf\<rparr>)"

definition clover_copyHeaders :: "(string \<Rightarrow> string) \<Rightarrow> string list \<Rightarrow> Header \<Rightarrow> Header \<Rightarrow> Header" where
  "clover_copyHeaders canon ks dst src =
     fold (\<lambda>k d. fold (\<lambda>v d'. Header_Add canon d' k v) (index_map src k) d) ks dst"

definition clover_NopRender_WriteTo ::
  "(string \<Rightarrow> string) \<Rightarrow> string list \<Rightarrow> 'a NopRender_scheme \<Rightarrow> ResponseWriter
     \<Rightarrow> string option \<times> ResponseWriter" where
  "clover_NopRender_WriteTo canon ks n w =
     (let w1 = w\<lparr>rw_Header := clover_copyHeaders canon ks (rw_Header w) (Headers n)\<rparr>;
          w2 = (if Status n > 0 then rw_WriteHeader w1 (Status n)
                else rw_WriteHeader w1 StatusOK)
      in (None, w2))"

definition clover_JSONRender_WriteTo ::
  "(string \<Rightarrow> string) \<Rightarrow> string list \<Rightarrow> JSONRender \<Rightarrow> ResponseWriter
     \<Rightarrow> string option \<times> ResponseWriter" where
  "clover_JSONRender_WriteTo canon ks j w =
     (let (_, w1) = clover_NopRender_WriteTo canon ks j w;
          (errW, w2) = rw_Write w1 (Data j)
      in (errW, w2))"

definition clover_TextRender_WriteTo ::
  "(string \<Rightarrow> string) \<Rightarrow> string list \<Rightarrow> TextRender \<Rightarrow> ResponseWriter
     \<Rightarrow> string option \<times> ResponseWriter" where
  "clover_TextRender_WriteTo canon ks t w =
     (let (_, w1) = clover_NopRender_WriteTo canon ks t w;
          (errW, w2) = rw_Write w1 (Text t)
      in (errW, w2))"

section \<open>Package clover: HandlerFunc\<close>

text \<open>
  \<open>render.Render\<close> is an interface with the one method \<open>WriteTo\<close>; a value of it is
  that method. A \<open>HandlerFunc\<close> receives the request's context and the request, may
  change state of its own (\<open>'s\<close>), and returns a \<open>Render\<close>.
\<close>

type_synonym Render = "ResponseWriter \<Rightarrow> string option \<times> ResponseWriter"

type_synonym ('c, 'r, 's) HandlerFunc = "'c \<Rightarrow> 'r \<Rightarrow> 's \<Rightarrow> Render \<times> 's"

definition ServeHTTP ::
  "('r \<Rightarrow> 'c) \<Rightarrow> ('c, 'r, 's) HandlerFunc \<Rightarrow> ResponseWriter \<Rightarrow> 'r \<Rightarrow> 's \<Rightarrow> ResponseWriter \<times> 's" where
  "ServeHTTP Context h w req s =
     (let (r, s1) = h (Context req) req s;
          (err, w1) = r w
      in case err of
           None \<Rightarrow> (w1, s1)
         | Some e \<Rightarrow>
             (let w2 = rw_WriteHeader w1 StatusInternalServerError;
                  (_, w3) = rw_Write w2 e
              in (w3, s1)))"

section \<open>What a call of WriteTo leaves on the writer\<close>

text \<open>
  \<open>written_body w w'\<close> is the body written between the writer states \<open>w\<close> and
  \<open>w'\<close>: the data of the \<open>Write\<close> calls added to the log. \<open>ContentLength\<close> reads
  the Content-Length entry of a header map as a number.
\<close>

definition written_body :: "ResponseWriter \<Rightarrow> ResponseWriter \<Rightarrow> bytes" where
  "written_body w w' = concat (map (\<lambda>c. case c of Write b \<Rightarrow> b | WriteHeader _ \<Rightarrow> []) (drop (length (rw_calls w)) (rw_calls w')))"

definition ContentLength :: "Header \<Rightarrow> nat option" where
  "ContentLength h = (case h HeaderContentLen of Some [s] \<Rightarrow> Some (dec_value s) | _ \<Rightarrow> None)"


section \<open>Package clover: request.go\<close>

text \<open>
  The wrapped \<open>*http.Request\<close>, as far as the accessors read it: its header map, the
  map \<open>URL.Query()\<close> returns, and its \<open>PostForm\<close> field (\<open>nil\<close> until the form is
  parsed). \<open>ParseForm\<close> of net/http, which fills \<open>PostForm\<close>, is a parameter.
\<close>

record http_Request =
  raw_Header :: Header
  raw_URL_Query :: Values
  raw_PostForm :: "Values option"

record request =
  raw :: http_Request
  urlQuery :: "Values option"

definition NewRequest :: "http_Request \<Rightarrow> request" where
  "NewRequest req = \<lparr>raw = req, urlQuery = None\<rparr>"

definition request_Header :: "(string \<Rightarrow> string) \<Rightarrow> request \<Rightarrow> string \<Rightarrow> string \<times> bool" where
  "request_Header canon req name =
     (let vs = Header_Values canon (raw_Header (raw req)) name
      in if length vs = 0 then ('''', False) else (vs ! 0, True))"

definition request_HeaderDefault :: "(string \<Rightarrow> string) \<Rightarrow> request \<Rightarrow> string \<Rightarrow> string \<Rightarrow> string" where
  "request_HeaderDefault canon req name defaultValue =
     (let (v, _) = request_Header canon req name
      in if v \<noteq> '''' then v else defaultValue)"

text \<open>
  \<open>Query\<close> caches the parsed query in \<open>req.urlQuery\<close> on its first call, so it returns
  the request as well; \<open>PostForm\<close> calls \<open>ParseForm\<close> on the wrapped request, which
  is a pointer, so it returns the request too.
\<close>

definition request_Query :: "request \<Rightarrow> string \<Rightarrow> (string \<times> bool) \<times> request" where
  "request_Query req name =
     (let req1 = (if urlQuery req = None then req\<lparr>urlQuery := Some (raw_URL_Query (raw req))\<rparr> else req);
          values = (case urlQuery req1 of None \<Rightarrow> [] | Some q \<Rightarrow> index_map q name)
      in (if length values = 0 then ('''', False) else (values ! 0, True), req1))"

definition request_QueryDefault :: "request \<Rightarrow> string \<Rightarrow> string \<Rightarrow> string \<times> request" where
  "request_QueryDefault req name defaultValue =
     (let ((v, _), req1) = request_Query req name
      in (if v \<noteq> '''' then v else defaultValue, req1))"

definition request_PostForm ::
  "(http_Request \<Rightarrow> http_Request) \<Rightarrow> request \<Rightarrow> string \<Rightarrow> (string \<times> bool) \<times> request" where
  "request_PostForm ParseForm req name =
     (let req1 = req\<lparr>raw := ParseForm (raw req)\<rparr>;
          vs = (case raw_PostForm (raw req1) of None \<Rightarrow> [] | Some m \<Rightarrow> index_map m name)
      in (if length vs = 0 then ('''', False) else (vs ! 0, True), req1))"

definition request_PostFormDefault ::
  "(http_Request \<Rightarrow> http_Request) \<Rightarrow> request \<Rightarrow> string \<Rightarrow> string \<Rightarrow> string \<times> request" where
  "request_PostFormDefault ParseForm req name defaultValue =
     (let ((v, _), req1) = request_PostForm ParseForm req name
      in (if v \<noteq> '''' then v else defaultValue, req1))"

subsection \<open>What the accessors are meant to return\<close>

text \<open>
  The claim's words, as definitions to compare the accessors with. A key is absent when
  the map stores no value under it (no entry, or an entry with an empty list: the
  source tests \<open>len(vs) == 0\<close> and cannot tell the two apart); otherwise the lookup
  yields the first value. \<open>spec_found\<close> is the pair an accessor returns,
  \<open>spec_or_default\<close> what a Default accessor returns. \<open>query_values\<close> and
  \<open>form_values\<close> are the maps \<open>Query\<close> and \<open>PostForm\<close> look the name up in.
\<close>

definition spec_first_value :: "(string \<rightharpoonup> string list) \<Rightarrow> string \<Rightarrow> string option" where
  "spec_first_value m k = (case m k of None \<Rightarrow> None | Some [] \<Rightarrow> None | Some (v # _) \<Rightarrow> Some v)"

definition spec_found :: "string option \<Rightarrow> string \<times> bool" where
  "spec_found r = (case r of None \<Rightarrow> ('''', False) | Some v \<Rightarrow> (v, True))"

definition spec_or_default :: "string option \<Rightarrow> string \<Rightarrow> string" where
  "spec_or_default r d = (case r of None \<Rightarrow> d | Some v \<Rightarrow> if v = '''' then d else v)"

definition query_values :: "request \<Rightarrow> Values" where
  "query_values req = (case urlQuery req of None \<Rightarrow> raw_URL_Query (raw req) | Some q \<Rightarrow> q)"

definition form_values :: "(http_Request \<Rightarrow> http_Request) \<Rightarrow> request \<Rightarrow> Values" where
  "form_values ParseForm req = (case raw_PostForm (ParseForm (raw req)) of None \<Rightarrow> Map.empty | Some m \<Rightarrow> m)"

section \<open>The routing core: pattern compiler, trie and matcher\<close>

text \<open>
  The sources hold the router's interface and callers only; the pattern compiler, the
  trie and the matcher (Mux and its tree) are missing. Every definition of this
  section is written from sections 3, 4 and 6 of the specification. A node covers one
  path segment, as the specification has it, so the static children are keyed by the
  literal segment; radix compression of those keys changes the cost of a lookup, not
  its result, and is not modelled.
\<close>

text \<open>
  Modelled from the spec: the Segment of section 3, missing with the pattern compiler.
  A regexParam carries its name, the text of its expression and the compiled
  expression; the regular-expression engine is outside the repository, so a compiled
  expression is the predicate that says which segments it matches.
\<close>

datatype segment =
    Static string
  | Param string
  | RegexParam string string "string \<Rightarrow> bool"
  | Wildcard

text \<open>
  Modelled from the spec: the registration-time failures of sections 4.1, 4.2 and 7,
  missing with the compiler and the trie. \<open>MixedToken\<close> is a token that mixes literal
  text with braces, which section 4.1 does not classify.
\<close>

datatype reg_error =
    NoLeadingSlash
  | EmptySegment
  | UnterminatedBrace
  | MixedToken
  | InvalidRegex
  | MisplacedWildcard
  | ConflictingParam
  | DuplicateEndpoint

text \<open>
  Modelled from the spec: "splitting on /" of sections 4.1 and 4.3, missing with the
  compiler and the matcher. \<open>split_on\<close> keeps empty pieces, \<open>join_segments\<close> puts
  the separators back.
\<close>

fun split_on :: "char \<Rightarrow> string \<Rightarrow> string list" where
  "split_on c [] = [[]]"
| "split_on c (x # xs) =
     (if x = c then [] # split_on c xs
      else (case split_on c xs of [] \<Rightarrow> [[x]] | t # ts \<Rightarrow> (x # t) # ts))"

fun join_segments :: "string list \<Rightarrow> string" where
  "join_segments [] = []"
| "join_segments [s] = s"
| "join_segments (s # t # ts) = s @ ''/'' @ join_segments (t # ts)"

text \<open>
  Modelled from the spec: the segments of a pattern or path, missing with the compiler
  and the matcher. "A pattern string must begin with /" (section 3); what follows the
  leading \<open>/\<close> is split on \<open>/\<close>, and the string \<open>/\<close> alone has no segment.
\<close>

definition path_segments :: "string \<Rightarrow> string list option" where
  "path_segments p =
     (case p of
        [] \<Rightarrow> None
      | x # xs \<Rightarrow> if x \<noteq> CHR ''/'' then None
                 else if xs = [] then Some []
                 else Some (split_on (CHR ''/'') xs))"

text \<open>
  Modelled from the spec: the classification of one token by the Pattern Compiler
  (section 4.1), which is missing: a literal token is static, \<open>{name}\<close> a param,
  \<open>{name:expr}\<close> and \<open>{:expr}\<close> a regexParam, a trailing \<open>*\<close> the wildcard; an empty
  segment, an unterminated brace, an expression with a brace in it and a wildcard
  that is not last fail. \<open>rxc\<close> compiles an expression and fails on an invalid one.
\<close>

definition classify :: "(string \<Rightarrow> (string \<Rightarrow> bool) option) \<Rightarrow> string \<Rightarrow> bool \<Rightarrow> reg_error + segment" where
  "classify rxc tok is_last =
     (if tok = [] then Inl EmptySegment
      else if tok = ''*'' then (if is_last then Inr Wildcard else Inl MisplacedWildcard)
      else if hd tok = CHR ''{'' then
        (if last tok \<noteq> CHR ''}'' \<or> length tok < 2 then Inl UnterminatedBrace
         else (let inner = butlast (tl tok);
                   name = takeWhile (\<lambda>c. c \<noteq> CHR '':'') inner;
                   expr = drop (length name + 1) inner
               in if CHR '':'' \<notin> set inner then
                    (if CHR ''{'' \<in> set inner \<or> CHR ''}'' \<in> set inner then Inl MixedToken
                     else Inr (Param inner))
                  else if CHR ''{'' \<in> set expr \<or> CHR ''}'' \<in> set expr then Inl InvalidRegex
                  else (case rxc expr of
                          None \<Rightarrow> Inl InvalidRegex
                        | Some re \<Rightarrow> Inr (RegexParam name expr re))))
      else if CHR ''{'' \<in> set tok \<and> CHR ''}'' \<notin> set tok then Inl UnterminatedBrace
      else if CHR ''{'' \<in> set tok \<or> CHR ''}'' \<in> set tok then Inl MixedToken
      else Inr (Static tok))"

text \<open>
  Modelled from the spec: the Pattern Compiler of section 4.1, which is missing: the
  tokens of the pattern, classified in order.
\<close>

fun classify_all :: "(string \<Rightarrow> (string \<Rightarrow> bool) option) \<Rightarrow> string list \<Rightarrow> reg_error + segment list" where
  "classify_all rxc [] = Inr []"
| "classify_all rxc (t # ts) =
     (case classify rxc t (ts = []) of
        Inl e \<Rightarrow> Inl e
      | Inr s \<Rightarrow> (case classify_all rxc ts of Inl e \<Rightarrow> Inl e | Inr ss \<Rightarrow> Inr (s # ss)))"

definition compile_pattern :: "(string \<Rightarrow> (string \<Rightarrow> bool) option) \<Rightarrow> string \<Rightarrow> reg_error + segment list" where
  "compile_pattern rxc p =
     (case path_segments p of None \<Rightarrow> Inl NoLeadingSlash | Some toks \<Rightarrow> classify_all rxc toks)"

text \<open>
  Modelled from the spec: the TrieNode of section 3, missing with the trie: the static
  children keyed by literal, the regexParam children in registration order, at most
  one param child, at most one wildcard child, which is always terminal and so is its
  endpoint table, and the node's own endpoint table from HTTP method to endpoint.
  Endpoint tables are kept in registration order; an endpoint is any value \<open>'e\<close>.
\<close>

datatype 'e node = Node
  (statics: "(string \<times> 'e node) list")
  (regexps: "((string \<times> string \<times> (string \<Rightarrow> bool)) \<times> 'e node) list")
  (param: "(string \<times> 'e node) option")
  (wildcard: "(string \<times> 'e) list option")
  (endpoints: "(string \<times> 'e) list")

definition empty_node :: "'e node" where
  "empty_node = Node [] [] None None []"

text \<open>
  Modelled from the spec: attaching an endpoint (section 4.2), missing with the trie:
  "attaching a second endpoint for the same method and same terminal node is a
  conflict error".
\<close>

definition attach :: "(string \<times> 'e) list \<Rightarrow> string \<Rightarrow> 'e \<Rightarrow> reg_error + (string \<times> 'e) list" where
  "attach eps m e = (if m \<in> fst ` set eps then Inl DuplicateEndpoint else Inr (eps @ [(m, e)]))"

text \<open>
  Modelled from the spec: locating or creating a child (section 4.2), missing with the
  trie. A regexParam child is found again by its name and expression and is appended
  to the list otherwise; a static child is found by its literal.
\<close>

fun find_regexp :: "string \<Rightarrow> string \<Rightarrow> ((string \<times> string \<times> (string \<Rightarrow> bool)) \<times> 'e node) list \<Rightarrow> 'e node option" where
  "find_regexp name expr [] = None"
| "find_regexp name expr (((n, x, re), c) # cs) =
     (if n = name \<and> x = expr then Some c else find_regexp name expr cs)"

fun put_regexp :: "string \<Rightarrow> string \<Rightarrow> (string \<Rightarrow> bool) \<Rightarrow> 'e node
    \<Rightarrow> ((string \<times> string \<times> (string \<Rightarrow> bool)) \<times> 'e node) list
    \<Rightarrow> ((string \<times> string \<times> (string \<Rightarrow> bool)) \<times> 'e node) list" where
  "put_regexp name expr re c' [] = [((name, expr, re), c')]"
| "put_regexp name expr re c' (((n, x, r), c) # cs) =
     (if n = name \<and> x = expr then ((n, x, r), c') # cs
      else ((n, x, r), c) # put_regexp name expr re c' cs)"

fun put_static :: "string \<Rightarrow> 'e node \<Rightarrow> (string \<times> 'e node) list \<Rightarrow> (string \<times> 'e node) list" where
  "put_static lit c' [] = [(lit, c')]"
| "put_static lit c' ((l, c) # cs) =
     (if l = lit then (l, c') # cs else (l, c) # put_static lit c' cs)"

text \<open>
  Modelled from the spec: insertion into the Routing Trie (section 4.2), which is
  missing: descend one compiled segment at a time, locating or creating the child,
  and attach the endpoint at the final segment. A second param child with another
  name is the structural conflict of section 3.
\<close>

fun insert_route :: "'e node \<Rightarrow> segment list \<Rightarrow> string \<Rightarrow> 'e \<Rightarrow> reg_error + 'e node" where
  "insert_route (Node st rx pm wc eps) [] m e =
     (case attach eps m e of Inl err \<Rightarrow> Inl err | Inr eps' \<Rightarrow> Inr (Node st rx pm wc eps'))"
| "insert_route (Node st rx pm wc eps) (Static lit # segs) m e =
     (case insert_route (case map_of st lit of None \<Rightarrow> empty_node | Some c \<Rightarrow> c) segs m e of
        Inl err \<Rightarrow> Inl err
      | Inr c' \<Rightarrow> Inr (Node (put_static lit c' st) rx pm wc eps))"
| "insert_route (Node st rx pm wc eps) (RegexParam name expr re # segs) m e =
     (case insert_route (case find_regexp name expr rx of None \<Rightarrow> empty_node | Some c \<Rightarrow> c) segs m e of
        Inl err \<Rightarrow> Inl err
      | Inr c' \<Rightarrow> Inr (Node st (put_regexp name expr re c' rx) pm wc eps))"
| "insert_route (Node st rx pm wc eps) (Param name # segs) m e =
     (case pm of
        None \<Rightarrow>
          (case insert_route empty_node segs m e of
             Inl err \<Rightarrow> Inl err
           | Inr c' \<Rightarrow> Inr (Node st rx (Some (name, c')) wc eps))
      | Some (n, c) \<Rightarrow>
          if n \<noteq> name then Inl ConflictingParam
          else (case insert_route c segs m e of
                  Inl err \<Rightarrow> Inl err
                | Inr c' \<Rightarrow> Inr (Node st rx (Some (name, c')) wc eps)))"
| "insert_route (Node st rx pm wc eps) (Wildcard # segs) m e =
     (if segs \<noteq> [] then Inl MisplacedWildcard
      else (case attach (case wc of None \<Rightarrow> [] | Some t \<Rightarrow> t) m e of
              Inl err \<Rightarrow> Inl err
            | Inr t' \<Rightarrow> Inr (Node st rx pm (Some t') eps)))"

text \<open>
  Modelled from the spec: registering a pattern for a method (sections 2 and 4.6),
  missing with the router: compile the pattern, then insert it.
\<close>

definition register ::
  "(string \<Rightarrow> (string \<Rightarrow> bool) option) \<Rightarrow> 'e node \<Rightarrow> string \<Rightarrow> string \<Rightarrow> 'e \<Rightarrow> reg_error + 'e node" where
  "register rxc t m pattern e =
     (case compile_pattern rxc pattern of Inl err \<Rightarrow> Inl err | Inr segs \<Rightarrow> insert_route t segs m e)"


text \<open>
  Modelled from the spec: the three serve-time outcomes of section 7, missing with the
  matcher: an endpoint with the bound parameters, method-not-allowed with the methods
  registered at the terminal node, or not-found.
\<close>

datatype 'e outcome =
    Matched 'e "(string \<times> string) list"
  | MethodNotAllowed "string list"
  | NotFound

text \<open>
  Modelled from the spec: how the Matcher of section 4.3, which is missing, goes on to
  the next alternative. A match ends the search; a method mismatch is recorded "rather
  than failing immediately, since a different candidate path might still produce an
  exact method match", and the first one recorded is the one reported.
\<close>

definition orelse :: "'e outcome \<Rightarrow> 'e outcome \<Rightarrow> 'e outcome" where
  "orelse r1 r2 =
     (case r1 of
        Matched e ps \<Rightarrow> r1
      | MethodNotAllowed ms \<Rightarrow> (case r2 of Matched e ps \<Rightarrow> r2 | _ \<Rightarrow> r1)
      | NotFound \<Rightarrow> r2)"

text \<open>
  Modelled from the spec: binding a parameter in the Match Context (sections 3 and
  4.5), which is missing. The bindings are ordered outermost first; an anonymous
  regexParam is "bound under no retrievable name" (section 6), so nothing is recorded
  for it.
\<close>

definition bind_param :: "string \<Rightarrow> string \<Rightarrow> 'e outcome \<Rightarrow> 'e outcome" where
  "bind_param name v r =
     (case r of
        Matched e ps \<Rightarrow> Matched e (if name = [] then ps else (name, v) # ps)
      | other \<Rightarrow> other)"

text \<open>
  Modelled from the spec: the termination rule of the Matcher (section 4.3), which is
  missing: the cursor is exhausted at a node with an endpoint for the method
  (success), at a node with endpoints but none for the method (a method mismatch), or
  at a node without endpoints.
\<close>

definition terminal :: "(string \<times> 'e) list \<Rightarrow> string \<Rightarrow> 'e outcome" where
  "terminal eps m =
     (case map_of eps m of
        Some e \<Rightarrow> Matched e []
      | None \<Rightarrow> if eps = [] then NotFound else MethodNotAllowed (map fst eps))"

text \<open>
  Modelled from the spec: the Matcher of section 4.3, which is missing. At a node, with
  the segment \<open>s\<close> under the cursor: (a) the static child for \<open>s\<close>; (b) each regexParam
  child in order, its expression applied to \<open>s\<close>; (c) the param child, which takes
  \<open>s\<close> whatever it is; (d) the wildcard child, which takes the whole remainder,
  separators included, and is bound under the name \<open>*\<close>. An alternative that does
  not end in a match is unwound and the next one tried, at every level.
\<close>

fun match_node :: "'e node \<Rightarrow> string list \<Rightarrow> string \<Rightarrow> 'e outcome"
  and match_regexps :: "((string \<times> string \<times> (string \<Rightarrow> bool)) \<times> 'e node) list \<Rightarrow> string \<Rightarrow> string list \<Rightarrow> string \<Rightarrow> 'e outcome"
where
  "match_node (Node st rx pm wc eps) [] m = terminal eps m"
| "match_node (Node st rx pm wc eps) (s # rest) m =
     orelse (case map_of st s of None \<Rightarrow> NotFound | Some c \<Rightarrow> match_node c rest m)
    (orelse (match_regexps rx s rest m)
    (orelse (case pm of
               None \<Rightarrow> NotFound
             | Some (name, c) \<Rightarrow> bind_param name s (match_node c rest m))
            (case wc of
               None \<Rightarrow> NotFound
             | Some t \<Rightarrow> bind_param ''*'' (join_segments (s # rest)) (terminal t m))))"
| "match_regexps [] s rest m = NotFound"
| "match_regexps (((name, expr, re), c) # others) s rest m =
     orelse (if re s then bind_param name s (match_node c rest m) else NotFound)
            (match_regexps others s rest m)"

text \<open>
  Modelled from the spec: matching a request (sections 4.3 and 7), missing with the
  router: the path is split into segments and matched from the root; a path that
  does not begin with \<open>/\<close> matches nothing.
\<close>

definition route :: "'e node \<Rightarrow> string \<Rightarrow> string \<Rightarrow> 'e outcome" where
  "route t m path =
     (case path_segments path of None \<Rightarrow> NotFound | Some segs \<Rightarrow> match_node t segs m)"

text \<open>
  Modelled from the spec: parameter lookup of the Match Context (section 4.5), which is
  missing: "scanning bindings in reverse insertion order", so the innermost binding
  of a name wins.
\<close>

definition URLParam :: "(string \<times> string) list \<Rightarrow> string \<Rightarrow> string option" where
  "URLParam ps name = map_of (rev ps) name"

subsection \<open>What it means for a pattern to match a path\<close>


inductive reaches :: "'e node \<Rightarrow> string list \<Rightarrow> (string \<times> 'e) list \<Rightarrow> bool" where
  reaches_here: "reaches (Node st rx pm wc eps) [] eps"
| reaches_static: "map_of st s = Some c \<Longrightarrow> reaches c rest t \<Longrightarrow> reaches (Node st rx pm wc eps) (s # rest) t"
| reaches_regexp: "((name, expr, re), c) \<in> set rx \<Longrightarrow> re s \<Longrightarrow> reaches c rest t
     \<Longrightarrow> reaches (Node st rx pm wc eps) (s # rest) t"
| reaches_param: "pm = Some (name, c) \<Longrightarrow> reaches c rest t \<Longrightarrow> reaches (Node st rx pm wc eps) (s # rest) t"
| reaches_wildcard: "wc = Some t \<Longrightarrow> reaches (Node st rx pm wc eps) (s # rest) t"

definition path_reaches :: "'e node \<Rightarrow> string \<Rightarrow> (string \<times> 'e) list \<Rightarrow> bool" where
  "path_reaches t p tb = (\<exists>segs. path_segments p = Some segs \<and> reaches t segs tb)"

definition endpoint_matches :: "'e node \<Rightarrow> string \<Rightarrow> string \<Rightarrow> bool" where
  "endpoint_matches t m p = (\<exists>tb. path_reaches t p tb \<and> m \<in> fst ` set tb)"

definition pattern_matches :: "'e node \<Rightarrow> string \<Rightarrow> bool" where
  "pattern_matches t p = (\<exists>tb. path_reaches t p tb \<and> tb \<noteq> [])"

text \<open>
  \<open>agrees S m r\<close>: the outcome \<open>r\<close> is the right answer for the method \<open>m\<close> when
  \<open>S\<close> is the set of endpoint tables the path can end at.
\<close>

definition agrees :: "(string \<times> 'e) list set \<Rightarrow> string \<Rightarrow> 'e outcome \<Rightarrow> bool" where
  "agrees S m r =
     (case r of
        Matched e ps \<Rightarrow> (\<exists>t. t \<in> S \<and> map_of t m = Some e)
      | MethodNotAllowed ms \<Rightarrow> (\<exists>t. t \<in> S \<and> t \<noteq> [] \<and> ms = map fst t) \<and> (\<forall>t. t \<in> S \<longrightarrow> map_of t m = None)
      | NotFound \<Rightarrow> (\<forall>t. t \<in> S \<longrightarrow> t = []))"

definition reach_set :: "'e node \<Rightarrow> string list \<Rightarrow> (string \<times> 'e) list set" where
  "reach_set n segs = {t. reaches n segs t}"

definition regexps_set ::
  "((string \<times> string \<times> (string \<Rightarrow> bool)) \<times> 'e node) list \<Rightarrow> string \<Rightarrow> string list \<Rightarrow> (string \<times> 'e) list set" where
  "regexps_set rx s rest = {t. \<exists>name expr re c. ((name, expr, re), c) \<in> set rx \<and> re s \<and> reaches c rest t}"

section \<open>Properties of the render packages and of HandlerFunc\<close>

subsection \<open>Decimal rendering\<close>

lemma of_char_digit_char: "d < 10 \<Longrightarrow> (of_char (digit_char d) :: nat) = 48 + d"
  by (simp add: digit_char_def)

lemma dec_value_snoc: "dec_value (s @ [c]) = 10 * dec_value s + (of_char c - 48)"
  by (simp add: dec_value_def)

lemma dec_value_nat_dec: "dec_value (nat_dec n) = n"
proof (induction n rule: nat_dec.induct)
  case (1 n)
  show ?case
  proof (cases "n < 10")
    case True
    then show ?thesis by (subst nat_dec.simps) (simp add: dec_value_def of_char_digit_char)
  next
    case False
    then have "dec_value (nat_dec n) = 10 * dec_value (nat_dec (n div 10)) + (of_char (digit_char (n mod 10)) - 48)"
      by (subst nat_dec.simps) (simp add: dec_value_snoc)
    also have "\<dots> = 10 * (n div 10) + n mod 10"
      using 1 False by (simp add: of_char_digit_char)
    finally show ?thesis by simp
  qed
qed

lemma dec_value_Itoa: "dec_value (Itoa (int n)) = n"
  by (simp add: Itoa_def dec_value_nat_dec)

lemma fold_Header_Add:
  "fold (\<lambda>v d'. Header_Add canon d' k v) vs d =
     (if vs = [] then d else d(canon k \<mapsto> index_map d (canon k) @ vs))"
proof (induction vs arbitrary: d)
  case Nil
  show ?case by simp
next
  case (Cons v vs)
  have "fold (\<lambda>v d'. Header_Add canon d' k v) (v # vs) d =
        fold (\<lambda>v d'. Header_Add canon d' k v) vs (Header_Add canon d k v)"
    by simp
  also have "\<dots> = (if vs = [] then Header_Add canon d k v
       else (Header_Add canon d k v)(canon k \<mapsto> index_map (Header_Add canon d k v) (canon k) @ vs))"
    by (rule Cons.IH)
  also have "\<dots> = d(canon k \<mapsto> index_map d (canon k) @ v # vs)"
    by (simp add: Header_Add_def index_map_def)
  finally show ?case by simp
qed

lemma copyHeaders_lookup:
  "distinct ks \<Longrightarrow> inj_on canon (set ks) \<Longrightarrow>
   copyHeaders canon ks dst src k' =
     (case find (\<lambda>k. canon k = k') ks of
        None \<Rightarrow> dst k'
      | Some k \<Rightarrow> (if index_map src k = [] then dst k'
                  else Some (index_map dst k' @ index_map src k)))"
proof (induction ks arbitrary: dst)
  case Nil
  show ?case by (simp add: copyHeaders_def)
next
  case (Cons k ks)
  have step: "copyHeaders canon (k # ks) dst src =
      copyHeaders canon ks (fold (\<lambda>v d'. Header_Add canon d' k v) (index_map src k) dst) src"
    by (simp add: copyHeaders_def)
  from Cons.prems have d: "distinct ks" and i: "inj_on canon (set ks)" by auto
  from Cons.prems have nk: "\<forall>x\<in>set ks. canon x \<noteq> canon k" by (auto simp: inj_on_def)
  show ?case
  proof (cases "canon k = k'")
    case True
    with nk have "find (\<lambda>x. canon x = k') ks = None" by (auto simp: find_None_iff)
    with True show ?thesis
      by (simp add: step Cons.IH[OF d i] fold_Header_Add index_map_def)
  next
    case False
    then show ?thesis
      by (simp add: step Cons.IH[OF d i] fold_Header_Add index_map_def split: option.splits)
  qed
qed

subsection \<open>The order of the header range does not matter\<close>

lemma find_same_enum:
  assumes "distinct ks1" "distinct ks2" "set ks1 = set ks2" "inj_on canon (set ks1)"
  shows "find (\<lambda>k. canon k = k') ks1 = find (\<lambda>k. canon k = k') ks2"
proof (cases "find (\<lambda>k. canon k = k') ks1")
  case None
  then have "\<forall>k\<in>set ks2. canon k \<noteq> k'" using assms(3) by (auto simp: find_None_iff)
  then have "find (\<lambda>k. canon k = k') ks2 = None" by (auto simp: find_None_iff)
  with None show ?thesis by simp
next
  case (Some k)
  then have k: "k \<in> set ks1" "canon k = k'" by (auto simp: find_Some_iff)
  then have "\<exists>x\<in>set ks2. canon x = k'" using assms(3) by auto
  then obtain k2 where k2: "find (\<lambda>k. canon k = k') ks2 = Some k2"
    by (cases "find (\<lambda>k. canon k = k') ks2") (auto simp: find_None_iff)
  then have "k2 \<in> set ks2" "canon k2 = k'" by (auto simp: find_Some_iff)
  with k assms(3,4) have "k2 = k" by (auto simp: inj_on_def)
  with Some k2 show ?thesis by simp
qed

lemma copyHeaders_order:
  assumes "range_order ks1 src" "range_order ks2 src" "inj_on canon (dom src)"
  shows "copyHeaders canon ks1 dst src = copyHeaders canon ks2 dst src"
proof
  fix k'
  from assms have d: "distinct ks1" "distinct ks2" and s: "set ks1 = set ks2"
    and i1: "inj_on canon (set ks1)" and i2: "inj_on canon (set ks2)"
    by (auto simp: range_order_def)
  show "copyHeaders canon ks1 dst src k' = copyHeaders canon ks2 dst src k'"
    by (simp add: copyHeaders_lookup[OF d(1) i1] copyHeaders_lookup[OF d(2) i2]
        find_same_enum[OF d s i1])
qed

lemma clover_copyHeaders_eq: "clover_copyHeaders = copyHeaders"
  by (intro ext) (simp add: clover_copyHeaders_def copyHeaders_def)

lemma clover_NopRender_WriteTo_eq: "clover_NopRender_WriteTo canon ks n w = render_NopRender_WriteTo canon ks n w"
  by (simp add: clover_NopRender_WriteTo_def render_NopRender_WriteTo_def clover_copyHeaders_eq)

lemma NopRender_WriteTo_order:
  assumes "range_order ks1 (Headers n)" "range_order ks2 (Headers n)" "inj_on canon (dom (Headers n))"
  shows "render_NopRender_WriteTo canon ks1 n w = render_NopRender_WriteTo canon ks2 n w"
  by (simp add: render_NopRender_WriteTo_def copyHeaders_order[OF assms])

lemma NopRender_WriteTo_calls:
  "rw_calls (snd (render_NopRender_WriteTo canon ks n w)) =
     rw_calls w @ [WriteHeader (if Status n > 0 then Status n else 200)]"
  by (simp add: render_NopRender_WriteTo_def rw_WriteHeader_def StatusOK_def)

lemma JSON_WriteTo_eq:
  assumes c: "canon HeaderContentTyp \<noteq> canon HeaderContentLen"
    and o1: "range_order ks1 (Headers (clover_JSON marshal data))"
    and o2: "range_order ks2 (Headers (render_JSON marshal data))"
  shows "clover_JSONRender_WriteTo canon ks1 (clover_JSON marshal data) w =
         render_JSONRender_WriteTo canon ks2 (render_JSON marshal data) w"
proof -
  let ?r = "render_JSON marshal data"
  have r: "clover_JSON marshal data = ?r\<lparr>Status := 0\<rparr>" "?r = ?r\<lparr>Status := StatusOK\<rparr>"
    by (simp_all add: clover_JSON_def render_JSON_def Let_def)
  have h: "Headers (clover_JSON marshal data) = Headers ?r"
    by (simp add: clover_JSON_def render_JSON_def Let_def)
  have i: "inj_on canon (dom (Headers ?r))"
    using c by (simp add: render_JSON_def Let_def inj_on_def)
  have "render_NopRender_WriteTo canon ks1 (clover_JSON marshal data) w =
        render_NopRender_WriteTo canon ks1 ?r w"
    by (simp add: render_NopRender_WriteTo_def clover_JSON_def render_JSON_def Let_def StatusOK_def)
  also have "\<dots> = render_NopRender_WriteTo canon ks2 ?r w"
    using o1 o2 i by (intro NopRender_WriteTo_order) (simp_all add: h)
  finally have n: "clover_NopRender_WriteTo canon ks1 (clover_JSON marshal data) w =
        render_NopRender_WriteTo canon ks2 ?r w"
    by (simp add: clover_NopRender_WriteTo_eq)
  have d: "Data (clover_JSON marshal data) = Data ?r"
    by (simp add: clover_JSON_def render_JSON_def Let_def)
  show ?thesis
    by (simp add: clover_JSONRender_WriteTo_def render_JSONRender_WriteTo_def n d)
qed

lemma Text_WriteTo_eq:
  assumes c: "canon HeaderContentTyp \<noteq> canon HeaderContentLen"
    and o1: "range_order ks1 (Headers (clover_Text text))"
    and o2: "range_order ks2 (Headers (render_Text text))"
  shows "clover_TextRender_WriteTo canon ks1 (clover_Text text) w =
         render_TextRender_WriteTo canon ks2 (render_Text text) w"
proof -
  let ?r = "render_Text text"
  have h: "Headers (clover_Text text) = Headers ?r"
    by (simp add: clover_Text_def render_Text_def Let_def)
  have i: "inj_on canon (dom (Headers ?r))"
    using c by (simp add: render_Text_def Let_def inj_on_def)
  have "render_NopRender_WriteTo canon ks1 (clover_Text text) w =
        render_NopRender_WriteTo canon ks1 ?r w"
    by (simp add: render_NopRender_WriteTo_def clover_Text_def render_Text_def Let_def StatusOK_def)
  also have "\<dots> = render_NopRender_WriteTo canon ks2 ?r w"
    using o1 o2 i by (intro NopRender_WriteTo_order) (simp_all add: h)
  finally have n: "clover_NopRender_WriteTo canon ks1 (clover_Text text) w =
        render_NopRender_WriteTo canon ks2 ?r w"
    by (simp add: clover_NopRender_WriteTo_eq)
  have d: "Text (clover_Text text) = Text ?r"
    by (simp add: clover_Text_def render_Text_def Let_def)
  show ?thesis
    by (simp add: clover_TextRender_WriteTo_def render_TextRender_WriteTo_def n d)
qed

text \<open>
  Claim C8. \<open>clover.JSON(data).WriteTo\<close> and \<open>render.JSON(data).WriteTo\<close> leave the
  same error, header map and calls (status, body) on every response writer, and so do the
  two \<open>Text\<close> constructors, although the clover constructors store \<open>Status\<close> 0 and the
  render constructors 200: \<open>NopRender.WriteTo\<close> writes 200 whenever the stored status is
  not positive. The order in which each \<open>range\<close> visits the header keys is arbitrary on
  both sides; \<open>canon\<close> keeps the two keys apart, as \<open>CanonicalMIMEHeaderKey\<close> does
  (both keys are already canonical).
\<close>

theorem clover_render_observationally_equal:
  assumes "canon HeaderContentTyp \<noteq> canon HeaderContentLen"
    and "range_order ks1 (Headers (clover_JSON marshal data))"
    and "range_order ks2 (Headers (render_JSON marshal data))"
    and "range_order ks3 (Headers (clover_Text text))"
    and "range_order ks4 (Headers (render_Text text))"
  shows "clover_JSONRender_WriteTo canon ks1 (clover_JSON marshal data) w =
           render_JSONRender_WriteTo canon ks2 (render_JSON marshal data) w
       \<and> clover_TextRender_WriteTo canon ks3 (clover_Text text) w =
           render_TextRender_WriteTo canon ks4 (render_Text text) w
       \<and> rw_calls (snd (clover_JSONRender_WriteTo canon ks1 (clover_JSON marshal data) w)) =
           rw_calls w @ [WriteHeader 200, Write (fst (marshal data))]
       \<and> rw_calls (snd (clover_TextRender_WriteTo canon ks3 (clover_Text text) w)) =
           rw_calls w @ [WriteHeader 200, Write text]
       \<and> Status (clover_JSON marshal data) = 0 \<and> Status (render_JSON marshal data) = 200
       \<and> Status (clover_Text text) = 0 \<and> Status (render_Text text) = 200
       \<and> (\<forall>n ks. rw_calls (snd (clover_NopRender_WriteTo canon ks (n::NopRender) w)) =
            rw_calls w @ [WriteHeader (if Status n > 0 then Status n else 200)])"
proof -
  have a: "rw_calls (snd (clover_JSONRender_WriteTo canon ks1 (clover_JSON marshal data) w)) =
           rw_calls w @ [WriteHeader 200, Write (fst (marshal data))]"
    by (simp add: clover_JSONRender_WriteTo_def clover_NopRender_WriteTo_def rw_Write_def
        rw_WriteHeader_def clover_JSON_def Let_def StatusOK_def)
  have b: "rw_calls (snd (clover_TextRender_WriteTo canon ks3 (clover_Text text) w)) =
           rw_calls w @ [WriteHeader 200, Write text]"
    by (simp add: clover_TextRender_WriteTo_def clover_NopRender_WriteTo_def rw_Write_def
        rw_WriteHeader_def clover_Text_def Let_def StatusOK_def)
  have s: "Status (clover_JSON marshal data) = 0 \<and> Status (render_JSON marshal data) = 200
       \<and> Status (clover_Text text) = 0 \<and> Status (render_Text text) = 200"
    by (simp add: clover_JSON_def render_JSON_def clover_Text_def render_Text_def Let_def StatusOK_def)
  have n: "\<forall>n ks. rw_calls (snd (clover_NopRender_WriteTo canon ks (n::NopRender) w)) =
            rw_calls w @ [WriteHeader (if Status n > 0 then Status n else 200)]"
    by (simp add: clover_NopRender_WriteTo_eq NopRender_WriteTo_calls)
  from JSON_WriteTo_eq[OF assms(1,2,3)] Text_WriteTo_eq[OF assms(1,4,5)] a b s n
  show ?thesis by blast
qed

theorem clover_render_observationally_equal_witness:
  "(\<lambda>k. k) HeaderContentTyp \<noteq> (\<lambda>k. k) HeaderContentLen
   \<and> range_order [''Content-Type'', ''Content-Length''] (Headers (clover_JSON (\<lambda>d. (d, None)) ''{}''))
   \<and> range_order [''Content-Length'', ''Content-Type''] (Headers (render_JSON (\<lambda>d. (d, None)) ''{}''))
   \<and> range_order [''Content-Length'', ''Content-Type''] (Headers (clover_Text ''hi''))
   \<and> range_order [''Content-Type'', ''Content-Length''] (Headers (render_Text ''hi''))
   \<and> clover_JSONRender_WriteTo (\<lambda>k. k) [''Content-Type'', ''Content-Length''] (clover_JSON (\<lambda>d. (d, None)) ''{}'')
        \<lparr>rw_Header = Map.empty, rw_calls = [], rw_err = (\<lambda>cs b. None)\<rparr> =
      render_JSONRender_WriteTo (\<lambda>k. k) [''Content-Length'', ''Content-Type''] (render_JSON (\<lambda>d. (d, None)) ''{}'')
        \<lparr>rw_Header = Map.empty, rw_calls = [], rw_err = (\<lambda>cs b. None)\<rparr>
   \<and> rw_calls (snd (clover_JSONRender_WriteTo (\<lambda>k. k) [''Content-Type'', ''Content-Length''] (clover_JSON (\<lambda>d. (d, None)) ''{}'')
        \<lparr>rw_Header = Map.empty, rw_calls = [], rw_err = (\<lambda>cs b. None)\<rparr>)) = [WriteHeader 200, Write ''{}'']"
proof -
  have h: "(\<lambda>k. k) HeaderContentTyp \<noteq> (\<lambda>k. k) HeaderContentLen"
    by (simp add: HeaderContentTyp_def HeaderContentLen_def)
  have o1: "range_order [''Content-Type'', ''Content-Length''] (Headers (clover_JSON (\<lambda>d. (d, None)) ''{}''))"
    by (simp add: range_order_def clover_JSON_def HeaderContentTyp_def HeaderContentLen_def Let_def insert_commute)
  have o2: "range_order [''Content-Length'', ''Content-Type''] (Headers (render_JSON (\<lambda>d. (d, None)) ''{}''))"
    by (simp add: range_order_def render_JSON_def HeaderContentTyp_def HeaderContentLen_def Let_def insert_commute)
  have o3: "range_order [''Content-Length'', ''Content-Type''] (Headers (clover_Text ''hi''))"
    by (simp add: range_order_def clover_Text_def HeaderContentTyp_def HeaderContentLen_def Let_def insert_commute)
  have o4: "range_order [''Content-Type'', ''Content-Length''] (Headers (render_Text ''hi''))"
    by (simp add: range_order_def render_Text_def HeaderContentTyp_def HeaderContentLen_def Let_def insert_commute)
  note t = clover_render_observationally_equal[OF h o1 o2 o3 o4,
      of "\<lparr>rw_Header = Map.empty, rw_calls = [], rw_err = (\<lambda>cs b. None)\<rparr>"]
  have e1: "clover_JSONRender_WriteTo (\<lambda>k. k) [''Content-Type'', ''Content-Length''] (clover_JSON (\<lambda>d. (d, None)) ''{}'')
        \<lparr>rw_Header = Map.empty, rw_calls = [], rw_err = (\<lambda>cs b. None)\<rparr> =
      render_JSONRender_WriteTo (\<lambda>k. k) [''Content-Length'', ''Content-Type''] (render_JSON (\<lambda>d. (d, None)) ''{}'')
        \<lparr>rw_Header = Map.empty, rw_calls = [], rw_err = (\<lambda>cs b. None)\<rparr>"
    by (rule t[THEN conjunct1])
  have e2: "rw_calls (snd (clover_JSONRender_WriteTo (\<lambda>k. k) [''Content-Type'', ''Content-Length''] (clover_JSON (\<lambda>d. (d, None)) ''{}'')
        \<lparr>rw_Header = Map.empty, rw_calls = [], rw_err = (\<lambda>cs b. None)\<rparr>)) = [WriteHeader 200, Write ''{}'']"
    using t[THEN conjunct2, THEN conjunct2, THEN conjunct1] by simp
  from h o1 o2 o3 o4 e1 e2 show ?thesis by blast
qed

subsection \<open>Calls made by WriteTo and ServeHTTP\<close>

lemma update_calls_neq: "w\<lparr>rw_calls := rw_calls w @ x # xs\<rparr> \<noteq> w"
proof
  assume "w\<lparr>rw_calls := rw_calls w @ x # xs\<rparr> = w"
  then have "rw_calls (w\<lparr>rw_calls := rw_calls w @ x # xs\<rparr>) = rw_calls w" by simp
  then show False by simp
qed

text \<open>
  Claim C1. \<open>HandlerFunc.ServeHTTP\<close> runs the handler once (the handler's state after
  the call is the state after one run of \<open>h\<close>), hands the writer to the \<open>WriteTo\<close> of
  the result, and adds \<open>WriteHeader(500)\<close> and a \<open>Write\<close> of the error's description
  exactly when \<open>WriteTo\<close> returned an error; otherwise the writer is left as
  \<open>WriteTo\<close> left it.
\<close>

theorem ServeHTTP_fallback:
  "(let (r, s1) = h (Context req) req s;
        (err, w1) = r w;
        (w', s') = ServeHTTP Context h w req s
    in s' = s1
     \<and> rw_Header w' = rw_Header w1
     \<and> rw_calls w' = rw_calls w1 @ (case err of None \<Rightarrow> [] | Some e \<Rightarrow> [WriteHeader 500, Write e])
     \<and> ((w' \<noteq> w1) = (err \<noteq> None)))"
  by (simp add: ServeHTTP_def rw_Write_def rw_WriteHeader_def StatusInternalServerError_def
      update_calls_neq split: prod.splits option.splits)

lemma written_body_append: "rw_calls w' = rw_calls w @ cs \<Longrightarrow>
  written_body w w' = concat (map (\<lambda>c. case c of Write b \<Rightarrow> b | WriteHeader _ \<Rightarrow> []) cs)"
  by (simp add: written_body_def)

lemma JSON_calls:
  "rw_calls (snd (render_JSONRender_WriteTo canon ks j w)) =
     rw_calls w @ [WriteHeader (if Status j > 0 then Status j else 200), Write (Data j)]"
  by (simp add: render_JSONRender_WriteTo_def render_NopRender_WriteTo_def rw_Write_def
      rw_WriteHeader_def Let_def StatusOK_def)

lemma Text_calls:
  "rw_calls (snd (render_TextRender_WriteTo canon ks t w)) =
     rw_calls w @ [WriteHeader (if Status t > 0 then Status t else 200), Write (Text t)]"
  by (simp add: render_TextRender_WriteTo_def render_NopRender_WriteTo_def rw_Write_def
      rw_WriteHeader_def Let_def StatusOK_def)

lemma Redirect_calls:
  "rw_calls (snd (render_RedirectRender_WriteTo canon ks r w)) =
     rw_calls w @ [WriteHeader (if Status r > 0 then Status r else 200), Write (RText r)]"
  by (simp add: render_RedirectRender_WriteTo_def render_NopRender_WriteTo_def rw_Write_def
      rw_WriteHeader_def Let_def StatusOK_def)

lemma clover_JSON_calls:
  "rw_calls (snd (clover_JSONRender_WriteTo canon ks j w)) =
     rw_calls w @ [WriteHeader (if Status j > 0 then Status j else 200), Write (Data j)]"
  by (simp add: clover_JSONRender_WriteTo_def clover_NopRender_WriteTo_def rw_Write_def
      rw_WriteHeader_def Let_def StatusOK_def)

lemma clover_Text_calls:
  "rw_calls (snd (clover_TextRender_WriteTo canon ks t w)) =
     rw_calls w @ [WriteHeader (if Status t > 0 then Status t else 200), Write (Text t)]"
  by (simp add: clover_TextRender_WriteTo_def clover_NopRender_WriteTo_def rw_Write_def
      rw_WriteHeader_def Let_def StatusOK_def)

text \<open>
  Claim C10. For the renders built by \<open>JSON\<close>, \<open>Text\<close> and \<open>Redirect\<close> of package
  render and by \<open>JSON\<close> and \<open>Text\<close> of package clover, the stored Content-Length
  header is \<open>strconv.Itoa\<close> of the length of the body that \<open>WriteTo\<close> then writes
  (the marshalled bytes, the text, the redirect body), and reads back as that length.
\<close>

theorem Content_Length_is_body_length:
  "Headers (render_JSON marshal data) HeaderContentLen =
      Some [Itoa (int (length (written_body w (snd (render_JSONRender_WriteTo canon ks (render_JSON marshal data) w)))))]
 \<and> ContentLength (Headers (render_JSON marshal data)) =
      Some (length (written_body w (snd (render_JSONRender_WriteTo canon ks (render_JSON marshal data) w))))
 \<and> written_body w (snd (render_JSONRender_WriteTo canon ks (render_JSON marshal data) w)) = fst (marshal data)
 \<and> Headers (render_Text text) HeaderContentLen =
      Some [Itoa (int (length (written_body w (snd (render_TextRender_WriteTo canon ks (render_Text text) w)))))]
 \<and> ContentLength (Headers (render_Text text)) =
      Some (length (written_body w (snd (render_TextRender_WriteTo canon ks (render_Text text) w))))
 \<and> written_body w (snd (render_TextRender_WriteTo canon ks (render_Text text) w)) = text
 \<and> Headers (render_Redirect status location texts) HeaderContentLen =
      Some [Itoa (int (length (written_body w (snd (render_RedirectRender_WriteTo canon ks (render_Redirect status location texts) w)))))]
 \<and> ContentLength (Headers (render_Redirect status location texts)) =
      Some (length (written_body w (snd (render_RedirectRender_WriteTo canon ks (render_Redirect status location texts) w))))
 \<and> written_body w (snd (render_RedirectRender_WriteTo canon ks (render_Redirect status location texts) w)) =
      (if texts = [] then ''redirect'' else concat texts)
 \<and> Headers (clover_JSON marshal data) HeaderContentLen =
      Some [Itoa (int (length (written_body w (snd (clover_JSONRender_WriteTo canon ks (clover_JSON marshal data) w)))))]
 \<and> ContentLength (Headers (clover_JSON marshal data)) =
      Some (length (written_body w (snd (clover_JSONRender_WriteTo canon ks (clover_JSON marshal data) w))))
 \<and> Headers (clover_Text text) HeaderContentLen =
      Some [Itoa (int (length (written_body w (snd (clover_TextRender_WriteTo canon ks (clover_Text text) w)))))]
 \<and> ContentLength (Headers (clover_Text text)) =
      Some (length (written_body w (snd (clover_TextRender_WriteTo canon ks (clover_Text text) w))))"
proof -
  have k: "HeaderContentLen \<noteq> HeaderContentTyp" "HeaderContentLen \<noteq> HeaderLocation"
    by (simp_all add: HeaderContentLen_def HeaderContentTyp_def HeaderLocation_def)
  have j: "written_body w (snd (render_JSONRender_WriteTo canon ks (render_JSON marshal data) w)) = fst (marshal data)"
    by (simp add: written_body_append[OF JSON_calls] render_JSON_def Let_def)
  have t: "written_body w (snd (render_TextRender_WriteTo canon ks (render_Text text) w)) = text"
    by (simp add: written_body_append[OF Text_calls] render_Text_def Let_def)
  have r: "written_body w (snd (render_RedirectRender_WriteTo canon ks (render_Redirect status location texts) w)) =
      (if texts = [] then ''redirect'' else concat texts)"
    by (simp add: written_body_append[OF Redirect_calls] render_Redirect_def Let_def)
  have cj: "written_body w (snd (clover_JSONRender_WriteTo canon ks (clover_JSON marshal data) w)) = fst (marshal data)"
    by (simp add: written_body_append[OF clover_JSON_calls] clover_JSON_def Let_def)
  have ct: "written_body w (snd (clover_TextRender_WriteTo canon ks (clover_Text text) w)) = text"
    by (simp add: written_body_append[OF clover_Text_calls] clover_Text_def Let_def)
  have hj: "Headers (render_JSON marshal data) HeaderContentLen = Some [Itoa (int (length (fst (marshal data))))]"
    using k by (simp add: render_JSON_def Let_def)
  have ht: "Headers (render_Text text) HeaderContentLen = Some [Itoa (int (length text))]"
    using k by (simp add: render_Text_def Let_def)
  have hr: "Headers (render_Redirect status location texts) HeaderContentLen =
      Some [Itoa (int (length (if texts = [] then ''redirect'' else concat texts)))]"
    using k by (simp add: render_Redirect_def Let_def)
  have hcj: "Headers (clover_JSON marshal data) HeaderContentLen = Some [Itoa (int (length (fst (marshal data))))]"
    using k by (simp add: clover_JSON_def Let_def)
  have hct: "Headers (clover_Text text) HeaderContentLen = Some [Itoa (int (length text))]"
    using k by (simp add: clover_Text_def Let_def)
  show ?thesis
    unfolding j t r cj ct ContentLength_def hj ht hr hcj hct
    by (simp add: dec_value_Itoa)
qed

section \<open>Properties of the request accessors\<close>

lemma request_Header_found:
  "request_Header canon req name = spec_found (spec_first_value (raw_Header (raw req)) (canon name))"
  by (simp add: request_Header_def Header_Values_def Let_def index_map_def spec_first_value_def
      spec_found_def split: option.splits list.splits)

lemma request_Query_found:
  "fst (request_Query req name) = spec_found (spec_first_value (query_values req) name)"
  by (cases "urlQuery req")
     (simp_all add: request_Query_def Let_def query_values_def index_map_def spec_first_value_def
      spec_found_def split: option.splits list.splits)

lemma request_PostForm_found:
  "fst (request_PostForm ParseForm req name) = spec_found (spec_first_value (form_values ParseForm req) name)"
  by (cases "raw_PostForm (ParseForm (raw req))")
     (simp_all add: request_PostForm_def Let_def form_values_def index_map_def spec_first_value_def
      spec_found_def split: option.splits list.splits)

lemma default_of_found: "(let (v, _) = spec_found r in if v \<noteq> '''' then v else d) = spec_or_default r d"
  by (simp add: spec_found_def spec_or_default_def split: option.splits)

text \<open>
  Claim C9. \<open>Header\<close>, \<open>Query\<close> and \<open>PostForm\<close> return \<open>("", false)\<close> when no value
  is stored under the name and the first value with \<open>true\<close> otherwise;
  \<open>HeaderDefault\<close>, \<open>QueryDefault\<close> and \<open>PostFormDefault\<close> return the default when
  the value is absent or the empty string and the first value otherwise. The header is
  looked up under the canonical form of the name, the query in the map cached by the
  first \<open>Query\<close> (for a new request the map \<open>URL.Query()\<close> returns, and the cache
  never changes it), the form in \<open>PostForm\<close> as \<open>ParseForm\<close> leaves it.
\<close>

theorem request_accessors:
  "request_Header canon req name = spec_found (spec_first_value (raw_Header (raw req)) (canon name))
 \<and> request_HeaderDefault canon req name d = spec_or_default (spec_first_value (raw_Header (raw req)) (canon name)) d
 \<and> fst (request_Query req name) = spec_found (spec_first_value (query_values req) name)
 \<and> fst (request_QueryDefault req name d) = spec_or_default (spec_first_value (query_values req) name) d
 \<and> fst (request_PostForm ParseForm req name) = spec_found (spec_first_value (form_values ParseForm req) name)
 \<and> fst (request_PostFormDefault ParseForm req name d) = spec_or_default (spec_first_value (form_values ParseForm req) name) d
 \<and> query_values (NewRequest r) = raw_URL_Query r
 \<and> query_values (snd (request_Query req name)) = query_values req
 \<and> query_values (snd (request_QueryDefault req name d)) = query_values req
 \<and> raw (snd (request_Query req name)) = raw req"
proof -
  have hd: "request_HeaderDefault canon req name d = spec_or_default (spec_first_value (raw_Header (raw req)) (canon name)) d"
    by (simp add: request_HeaderDefault_def request_Header_found default_of_found)
  have qd: "fst (request_QueryDefault req name d) = spec_or_default (spec_first_value (query_values req) name) d"
    using request_Query_found[of req name]
    by (cases "request_Query req name")
       (auto simp: request_QueryDefault_def spec_found_def spec_or_default_def split: option.splits)
  have pd: "fst (request_PostFormDefault ParseForm req name d) = spec_or_default (spec_first_value (form_values ParseForm req) name) d"
    using request_PostForm_found[of ParseForm req name]
    by (cases "request_PostForm ParseForm req name")
       (auto simp: request_PostFormDefault_def spec_found_def spec_or_default_def split: option.splits)
  have n: "query_values (NewRequest r) = raw_URL_Query r"
    by (simp add: query_values_def NewRequest_def)
  have q1: "query_values (snd (request_Query req name)) = query_values req"
    by (cases "urlQuery req") (simp_all add: request_Query_def Let_def query_values_def)
  have q2: "query_values (snd (request_QueryDefault req name d)) = query_values req"
    using q1 by (cases "request_Query req name") (auto simp: request_QueryDefault_def)
  have q3: "raw (snd (request_Query req name)) = raw req"
    by (simp add: request_Query_def Let_def)
  from request_Header_found hd request_Query_found qd request_PostForm_found pd n q1 q2 q3
  show ?thesis by blast
qed

section \<open>Properties of the routing core\<close>

subsection \<open>The search agrees with the declarative reading\<close>

lemma agrees_empty: "agrees {} m NotFound"
  by (simp add: agrees_def)

lemma agrees_terminal: "agrees {t} m (terminal t m)"
  by (auto simp: agrees_def terminal_def split: option.splits)

lemma agrees_bind: "agrees S m r \<Longrightarrow> agrees S m (bind_param name v r)"
  by (cases r) (auto simp: agrees_def bind_param_def)

lemma agrees_orelse:
  assumes "agrees S1 m r1" "agrees S2 m r2"
  shows "agrees (S1 \<union> S2) m (orelse r1 r2)"
proof (cases r1)
  case (Matched e ps)
  with assms show ?thesis by (auto simp: agrees_def orelse_def)
next
  case (MethodNotAllowed ms)
  with assms show ?thesis
    by (cases r2) (auto simp: agrees_def orelse_def)
next
  case NotFound
  with assms show ?thesis
    by (cases r2) (auto simp: agrees_def orelse_def)
qed

lemma reach_set_Nil: "reach_set (Node st rx pm wc eps) [] = {eps}"
  by (auto simp: reach_set_def intro: reaches.intros elim: reaches.cases)

lemma reach_set_Cons:
  "reach_set (Node st rx pm wc eps) (s # rest) =
     (case map_of st s of None \<Rightarrow> {} | Some c \<Rightarrow> reach_set c rest)
     \<union> (regexps_set rx s rest
     \<union> ((case pm of None \<Rightarrow> {} | Some (name, c) \<Rightarrow> reach_set c rest)
     \<union> (case wc of None \<Rightarrow> {} | Some t \<Rightarrow> {t})))"
proof (intro set_eqI iffI)
  fix t
  assume "t \<in> reach_set (Node st rx pm wc eps) (s # rest)"
  then have "reaches (Node st rx pm wc eps) (s # rest) t" by (simp add: reach_set_def)
  then show "t \<in> (case map_of st s of None \<Rightarrow> {} | Some c \<Rightarrow> reach_set c rest)
     \<union> (regexps_set rx s rest
     \<union> ((case pm of None \<Rightarrow> {} | Some (name, c) \<Rightarrow> reach_set c rest)
     \<union> (case wc of None \<Rightarrow> {} | Some t \<Rightarrow> {t})))"
    by (cases rule: reaches.cases) (auto simp: reach_set_def regexps_set_def)
next
  fix t
  assume "t \<in> (case map_of st s of None \<Rightarrow> {} | Some c \<Rightarrow> reach_set c rest)
     \<union> (regexps_set rx s rest
     \<union> ((case pm of None \<Rightarrow> {} | Some (name, c) \<Rightarrow> reach_set c rest)
     \<union> (case wc of None \<Rightarrow> {} | Some t \<Rightarrow> {t})))"
  then have "reaches (Node st rx pm wc eps) (s # rest) t"
    by (auto simp: reach_set_def regexps_set_def split: option.splits intro: reaches.intros)
  then show "t \<in> reach_set (Node st rx pm wc eps) (s # rest)" by (simp add: reach_set_def)
qed

lemma regexps_set_Nil: "regexps_set [] s rest = {}"
  by (simp add: regexps_set_def)

lemma regexps_set_Cons:
  "regexps_set (((name, expr, re), c) # others) s rest =
     (if re s then reach_set c rest else {}) \<union> regexps_set others s rest"
  by (auto simp: regexps_set_def reach_set_def)

lemma match_agrees:
  fixes n :: "'e node"
    and rx :: "((string \<times> string \<times> (string \<Rightarrow> bool)) \<times> 'e node) list"
  shows "agrees (reach_set n segs) m (match_node n segs m)"
    and "agrees (regexps_set rx s rest) m (match_regexps rx s rest m)"
proof (induction n segs m and rx s rest m rule: match_node_match_regexps.induct)
  case (1 st rx pm wc eps m)
  show ?case by (simp add: reach_set_Nil agrees_terminal)
next
  case (2 st rx pm wc eps s rest m)
  have a: "agrees (case map_of st s of None \<Rightarrow> {} | Some c \<Rightarrow> reach_set c rest) m
             (case map_of st s of None \<Rightarrow> NotFound | Some c \<Rightarrow> match_node c rest m)"
    using "2.IH"(1) by (simp add: agrees_empty split: option.splits)
  have b: "agrees (regexps_set rx s rest) m (match_regexps rx s rest m)"
    using "2.IH"(2) .
  have c: "agrees (case pm of None \<Rightarrow> {} | Some (name, c) \<Rightarrow> reach_set c rest) m
             (case pm of None \<Rightarrow> NotFound | Some (name, c) \<Rightarrow> bind_param name s (match_node c rest m))"
    using "2.IH"(3) by (auto simp: agrees_empty agrees_bind split: option.splits)
  have d: "agrees (case wc of None \<Rightarrow> {} | Some t \<Rightarrow> {t}) m
             (case wc of None \<Rightarrow> NotFound
              | Some t \<Rightarrow> bind_param ''*'' (join_segments (s # rest)) (terminal t m))"
    by (simp add: agrees_empty agrees_bind agrees_terminal split: option.splits)
  show ?case
    unfolding reach_set_Cons match_node.simps
    by (intro agrees_orelse a b c d)
next
  case (3 s rest m)
  show ?case by (simp add: regexps_set_Nil agrees_empty)
next
  case (4 name expr re c others s rest m)
  have a: "agrees (if re s then reach_set c rest else {}) m
            (if re s then bind_param name s (match_node c rest m) else NotFound)"
    using "4.IH"(1) by (simp add: agrees_empty agrees_bind)
  show ?case
    unfolding regexps_set_Cons match_regexps.simps
    by (intro agrees_orelse a "4.IH"(2))
qed



lemma compile_files: "compile_pattern rxc ''/files/*'' = Inr [Static ''files'', Wildcard]"
  by (simp add: compile_pattern_def path_segments_def classify_def)












lemma split_on_not_Nil: "split_on c xs \<noteq> []"
  by (induction xs) (auto split: list.splits)

lemma join_segments_Cons: "ts \<noteq> [] \<Longrightarrow> join_segments (t # ts) = t @ ''/'' @ join_segments ts"
  by (cases ts) simp_all

lemma join_split_on: "join_segments (split_on (CHR ''/'') xs) = xs"
proof (induction xs)
  case Nil
  show ?case by simp
next
  case (Cons x xs)
  show ?case
  proof (cases "x = CHR ''/''")
    case True
    then show ?thesis using Cons.IH by (simp add: join_segments_Cons split_on_not_Nil)
  next
    case False
    obtain t ts where s: "split_on (CHR ''/'') xs = t # ts"
      using split_on_not_Nil[of "CHR ''/''" xs] by (cases "split_on (CHR ''/'') xs") auto
    show ?thesis
    proof (cases ts)
      case Nil
      with s False Cons.IH show ?thesis by simp
    next
      case (Cons u us)
      with s False Cons.IH show ?thesis by simp
    qed
  qed
qed

lemma route_agrees:
  fixes t :: "'e node"
  shows "agrees {tb. path_reaches t p tb} m (route t m p)"
proof (cases "path_segments p")
  case None
  then have "{tb. path_reaches t p tb} = {}" by (simp add: path_reaches_def)
  with None show ?thesis by (simp add: route_def agrees_empty)
next
  case (Some segs)
  then have "{tb. path_reaches t p tb} = reach_set t segs"
    by (simp add: path_reaches_def reach_set_def)
  with Some match_agrees(1)[of t segs m] show ?thesis by (simp add: route_def)
qed

text \<open>
  Claim C2. For every trie, method and path string, \<open>route\<close> (a total function: the
  matcher terminates on every input and has no failing branch) returns exactly one of
  the three outcomes, and which one is fixed by the trie: a matched endpoint exactly
  when some way of reading the path ends at a table with the method, carrying an
  endpoint registered there for the method; method-not-allowed exactly when some
  registered pattern matches the path but none with the method, carrying the methods
  registered at one matching terminal node; not-found exactly when no registered
  pattern matches the path.
\<close>

theorem route_three_outcomes:
  fixes t :: "'e node"
  shows "((\<exists>e ps. route t m p = Matched e ps) = endpoint_matches t m p)
    \<and> ((\<exists>ms. route t m p = MethodNotAllowed ms) = (pattern_matches t p \<and> \<not> endpoint_matches t m p))
    \<and> ((route t m p = NotFound) = (\<not> pattern_matches t p))
    \<and> (\<forall>e ps. route t m p = Matched e ps \<longrightarrow> (\<exists>tb. path_reaches t p tb \<and> map_of tb m = Some e))
    \<and> (\<forall>ms. route t m p = MethodNotAllowed ms \<longrightarrow>
          (\<exists>tb. path_reaches t p tb \<and> tb \<noteq> [] \<and> ms = map fst tb))"
proof -
  note a = route_agrees[of t p m]
  have none: "\<And>tb::(string \<times> 'e) list. (map_of tb m = None) = (m \<notin> fst ` set tb)"
    by (simp add: map_of_eq_None_iff)
  have some: "\<And>(tb::(string \<times> 'e) list) e. map_of tb m = Some e \<Longrightarrow> m \<in> fst ` set tb"
    by (metis none option.distinct(1))
  show ?thesis
  proof (cases "route t m p")
    case (Matched e ps)
    with a obtain tb where "path_reaches t p tb" "map_of tb m = Some e"
      by (auto simp: agrees_def)
    with Matched show ?thesis
      using some[of tb e] by (auto simp: endpoint_matches_def pattern_matches_def)
  next
    case (MethodNotAllowed ms)
    with a have 1: "\<exists>tb. path_reaches t p tb \<and> tb \<noteq> [] \<and> ms = map fst tb"
      and 2: "\<forall>tb. path_reaches t p tb \<longrightarrow> map_of tb m = None"
      by (auto simp: agrees_def)
    from 2 have "\<not> endpoint_matches t m p" by (auto simp: endpoint_matches_def none)
    moreover from 1 have "pattern_matches t p" by (auto simp: pattern_matches_def)
    ultimately show ?thesis using MethodNotAllowed 1 by simp
  next
    case NotFound
    with a have 1: "\<forall>tb. path_reaches t p tb \<longrightarrow> tb = []" by (auto simp: agrees_def)
    then have "\<not> pattern_matches t p" by (auto simp: pattern_matches_def)
    moreover from 1 have "\<not> endpoint_matches t m p" by (fastforce simp: endpoint_matches_def)
    ultimately show ?thesis using NotFound by simp
  qed
qed

theorem route_three_outcomes_witness:
  "route (Node [(''users'', Node [(''me'', Node [] [] None None [(''GET'', ''me'')])] []
                   (Some (''id'', Node [] [] None None [(''GET'', ''byid'')])) None [])] [] None None [])
         ''POST'' ''/users/42'' = MethodNotAllowed [''GET'']
   \<and> pattern_matches (Node [(''users'', Node [(''me'', Node [] [] None None [(''GET'', ''me'')])] []
                   (Some (''id'', Node [] [] None None [(''GET'', ''byid'')])) None [])] [] None None [])
         ''/users/42''
   \<and> \<not> endpoint_matches (Node [(''users'', Node [(''me'', Node [] [] None None [(''GET'', ''me'')])] []
                   (Some (''id'', Node [] [] None None [(''GET'', ''byid'')])) None [])] [] None None [])
         ''POST'' ''/users/42''
   \<and> (\<exists>tb. path_reaches (Node [(''users'', Node [(''me'', Node [] [] None None [(''GET'', ''me'')])] []
                   (Some (''id'', Node [] [] None None [(''GET'', ''byid'')])) None [])] [] None None [])
         ''/users/42'' tb \<and> tb \<noteq> [] \<and> [''GET''] = map fst tb)
   \<and> route (Node [(''users'', Node [(''me'', Node [] [] None None [(''GET'', ''me'')])] []
                   (Some (''id'', Node [] [] None None [(''GET'', ''byid'')])) None [])] [] None None [])
         ''GET'' ''/users/me'' = Matched ''me'' []
   \<and> (\<exists>tb. path_reaches (Node [(''users'', Node [(''me'', Node [] [] None None [(''GET'', ''me'')])] []
                   (Some (''id'', Node [] [] None None [(''GET'', ''byid'')])) None [])] [] None None [])
         ''/users/me'' tb \<and> map_of tb ''GET'' = Some ''me'')
   \<and> route (Node [(''users'', Node [(''me'', Node [] [] None None [(''GET'', ''me'')])] []
                   (Some (''id'', Node [] [] None None [(''GET'', ''byid'')])) None [])] [] None None [])
         ''GET'' ''/nothing'' = NotFound
   \<and> \<not> pattern_matches (Node [(''users'', Node [(''me'', Node [] [] None None [(''GET'', ''me'')])] []
                   (Some (''id'', Node [] [] None None [(''GET'', ''byid'')])) None [])] [] None None [])
         ''/nothing''"
proof -
  let ?t = "Node [(''users'', Node [(''me'', Node [] [] None None [(''GET'', ''me'')])] []
                   (Some (''id'', Node [] [] None None [(''GET'', ''byid'')])) None [])] [] None None []"
  have r: "route ?t ''POST'' ''/users/42'' = MethodNotAllowed [''GET'']"
    by (simp add: route_def path_segments_def terminal_def orelse_def bind_param_def)
  have g: "route ?t ''GET'' ''/users/me'' = Matched ''me'' []"
    by (simp add: route_def path_segments_def terminal_def orelse_def bind_param_def)
  have n: "route ?t ''GET'' ''/nothing'' = NotFound"
    by (simp add: route_def path_segments_def terminal_def orelse_def bind_param_def)
  note a = route_three_outcomes[of ?t "''POST''" "''/users/42''"]
  note b = route_three_outcomes[of ?t "''GET''" "''/users/me''"]
  note c = route_three_outcomes[of ?t "''GET''" "''/nothing''"]
  have a1: "pattern_matches ?t ''/users/42'' \<and> \<not> endpoint_matches ?t ''POST'' ''/users/42''"
    using a[THEN conjunct2, THEN conjunct1] r by simp
  have a2: "\<exists>tb. path_reaches ?t ''/users/42'' tb \<and> tb \<noteq> [] \<and> [''GET''] = map fst tb"
    using a[THEN conjunct2, THEN conjunct2, THEN conjunct2, THEN conjunct2] r by simp
  have b1: "\<exists>tb. path_reaches ?t ''/users/me'' tb \<and> map_of tb ''GET'' = Some ''me''"
    using b[THEN conjunct2, THEN conjunct2, THEN conjunct2, THEN conjunct1] g by simp
  have c1: "\<not> pattern_matches ?t ''/nothing''"
    using c[THEN conjunct2, THEN conjunct2, THEN conjunct1] n by simp
  from r a1 a2 g b1 n c1 show ?thesis by blast
qed


subsection \<open>Registration order of regexParam children\<close>














subsection \<open>The order in which children are tried\<close>




lemma register_files:
  "register rxc empty_node m ''/files/*'' e =
     Inr (Node [(''files'', Node [] [] None (Some [(m, e)]) [])] [] None None [])"
  by (simp add: register_def compile_files empty_node_def attach_def)

lemma route_files:
  "route (Node [(''files'', Node [] [] None (Some [(m, e)]) [])] [] None None []) m (''/files/'' @ r)
     = Matched e [(''*'', r)]"
proof -
  obtain s rest where sp: "split_on (CHR ''/'') r = s # rest"
    using split_on_not_Nil[of "CHR ''/''" r] by (cases "split_on (CHR ''/'') r") auto
  have seg: "path_segments (''/files/'' @ r) = Some (''files'' # s # rest)"
    by (simp add: path_segments_def sp)
  have "join_segments (s # rest) = r"
    using join_split_on[of r] by (simp add: sp)
  then show ?thesis
    by (simp add: route_def seg[simplified] terminal_def orelse_def bind_param_def)
qed

text \<open>
  Claim C4. With \<open>/files/*\<close> registered, every path \<open>/files/\<close> followed by any
  remainder \<open>r\<close>, slashes included, matches that endpoint and binds the wildcard to
  \<open>r\<close>; for \<open>/files/a/b/c\<close> the wildcard is \<open>a/b/c\<close>.
\<close>

theorem wildcard_takes_remainder:
  "\<exists>t. register rxc empty_node m ''/files/*'' e = Inr t
      \<and> (\<forall>r. route t m (''/files/'' @ r) = Matched e [(''*'', r)])
      \<and> route t m ''/files/a/b/c'' = Matched e [(''*'', ''a/b/c'')]
      \<and> URLParam [(''*'', ''a/b/c'')] ''*'' = Some ''a/b/c''"
proof -
  let ?t = "Node [(''files'', Node [] [] None (Some [(m, e)]) [])] [] None None []"
  have 1: "register rxc empty_node m ''/files/*'' e = Inr ?t" by (rule register_files)
  have 2: "\<forall>r. route ?t m (''/files/'' @ r) = Matched e [(''*'', r)]"
    by (simp only: route_files) simp
  have 3: "route ?t m ''/files/a/b/c'' = Matched e [(''*'', ''a/b/c'')]"
    using route_files[of m e "''a/b/c''"] by simp
  have 4: "URLParam [(''*'', ''a/b/c'')] ''*'' = Some ''a/b/c''"
    by (simp add: URLParam_def)
  from 1 2 3 4 show ?thesis by blast
qed


end
